theory Spec2Isabelle
  imports Main
begin

section \<open>The paged carousel (src/components/Carousel.tsx)\<close>

text \<open>
  The component \<^verbatim>\<open>Carousel\<close> receives the current page of items and the page numbers as
  props from its parent route and owns three pieces of React state: \<^verbatim>\<open>index\<close>,
  \<^verbatim>\<open>direction\<close> and \<^verbatim>\<open>crop\<close>. JavaScript numbers are modelled as \<open>int\<close>; every value
  that occurs here is an integer. The optional prop \<^verbatim>\<open>onItemChange\<close> is modelled by a flag
  that says whether the parent passed it.
\<close>

record 'a props =
  items :: "'a list"
  loading :: bool
  onItemChange :: bool
  page :: int
  totalPages :: int
  totalResults :: int

record cstate =
  index :: int
  direction :: int
  crop :: bool

text \<open>\<^verbatim>\<open>useState(initialIndex || 0)\<close>, \<^verbatim>\<open>useState(1)\<close>, \<^verbatim>\<open>useState(false)\<close>.\<close>

definition initial :: "int option \<Rightarrow> cstate" where
  "initial initialIndex =
     \<lparr>index = (case initialIndex of None \<Rightarrow> 0 | Some i \<Rightarrow> i), direction = 1, crop = False\<rparr>"

text \<open>
  Everything a handler does to the outside: a call of one of the parent's two page
  callbacks, a call of \<^verbatim>\<open>onItemChange\<close>, and the navigation that mirrors the query text
  into the address bar. \<open>FetchPage\<close> is the request for a page that a page callback makes
  of the page store; the callbacks belong to the parent (see \<open>requested\<close> below).
\<close>

datatype callback = OnNextPage | OnPreviousPage

datatype effect = Call callback | OnItemChange int | Navigate string | FetchPage int

definition hasNextItem :: "'a props \<Rightarrow> cstate \<Rightarrow> bool" where
  "hasNextItem p s \<longleftrightarrow>
     index s < int (length (items p)) - 1 \<or> page p < totalPages p - 1"

definition hasPreviousItem :: "'a props \<Rightarrow> cstate \<Rightarrow> bool" where
  "hasPreviousItem p s \<longleftrightarrow> index s \<noteq> 0 \<or> page p > 1"

text \<open>
  \<^verbatim>\<open>nextItem\<close> and \<^verbatim>\<open>previousItem\<close> are \<^verbatim>\<open>async\<close> functions. Each either runs to its end
  at once, or stops at its \<^verbatim>\<open>await\<close> of a page callback. What remains to run after the
  \<^verbatim>\<open>await\<close> is the same three statements in both functions, on values fixed before the
  \<^verbatim>\<open>await\<close>; a suspended call is the record of those values.
\<close>

record continuation =
  awaited :: callback
  thenIndex :: int
  thenDirection :: int
  thenNotify :: bool

datatype outcome = Completed cstate "effect list" | Suspended continuation

text \<open>
  The common tail \<^verbatim>\<open>setIndex(nextIndex); setDirection(d); onItemChange && onItemChange(nextIndex)\<close>.
\<close>

definition finish :: "bool \<Rightarrow> int \<Rightarrow> int \<Rightarrow> cstate \<Rightarrow> cstate \<times> effect list" where
  "finish given nextIndex d s =
     (s\<lparr>index := nextIndex, direction := d\<rparr>, if given then [OnItemChange nextIndex] else [])"

definition nextItem :: "'a props \<Rightarrow> cstate \<Rightarrow> outcome" where
  "nextItem p s =
     (if \<not> hasNextItem p s then Completed s []
      else
        let nextIndex = index s + 1 in
        if nextIndex = int (length (items p)) - 1 \<and> page p < totalPages p - 1
        then Suspended \<lparr>awaited = OnNextPage, thenIndex = 0, thenDirection = 1,
                         thenNotify = onItemChange p\<rparr>
        else (case finish (onItemChange p) nextIndex 1 s of (s', es) \<Rightarrow> Completed s' es))"

text \<open>
  \<^verbatim>\<open>PER_PAGE\<close> is imported from the route module, which is not part of the sources at
  hand; it is a parameter here.
\<close>

definition previousItem :: "int \<Rightarrow> 'a props \<Rightarrow> cstate \<Rightarrow> outcome" where
  "previousItem PER_PAGE p s =
     (if \<not> hasPreviousItem p s then Completed s []
      else
        let nextIndex = index s - 1 in
        if nextIndex < 0
        then Suspended \<lparr>awaited = OnPreviousPage, thenIndex = PER_PAGE - 1, thenDirection = - 1,
                         thenNotify = onItemChange p\<rparr>
        else (case finish (onItemChange p) nextIndex (- 1) s of (s', es) \<Rightarrow> Completed s' es))"

text \<open>The continuation of a suspended call, run when the awaited promise is fulfilled.\<close>

definition resume :: "continuation \<Rightarrow> cstate \<Rightarrow> cstate \<times> effect list" where
  "resume k s = finish (thenNotify k) (thenIndex k) (thenDirection k) s"

definition onQueryChange :: "cstate \<Rightarrow> cstate" where
  "onQueryChange s = s\<lparr>index := 0\<rparr>"

text \<open>
  \<^verbatim>\<open>items[index]\<close>: reading a JavaScript array outside its range gives \<^verbatim>\<open>undefined\<close>.
\<close>

definition item_at :: "'a list \<Rightarrow> int \<Rightarrow> 'a option" where
  "item_at xs i = (if 0 \<le> i \<and> i < int (length xs) then Some (xs ! nat i) else None)"

text \<open>
  The element tree that the function \<^verbatim>\<open>Carousel\<close> returns for given props and state:
  whether a \<^verbatim>\<open>MediaItem\<close> element is in it, the item \<^verbatim>\<open>items[index]\<close> handed to
  \<^verbatim>\<open>MediaItem\<close>, the overlay and the sidebar, the \<^verbatim>\<open>disabled\<close> attributes of the two
  navigation buttons, and whether the "No results" block is in it.
\<close>

record 'a view =
  showsMedia :: bool
  shownItem :: "'a option"
  nextDisabled :: bool
  previousDisabled :: bool
  showsNoResults :: bool

definition render :: "'a props \<Rightarrow> cstate \<Rightarrow> 'a view" where
  "render p s =
     \<lparr>showsMedia = (\<not> loading p \<and> length (items p) > 0),
      shownItem = item_at (items p) (index s),
      nextDisabled = (\<not> hasNextItem p s),
      previousDisabled = (\<not> hasPreviousItem p s),
      showsNoResults = (length (items p) = 0)\<rparr>"



subsection \<open>The mounted component as an event-driven machine\<close>

text \<open>
  JavaScript runs one handler at a time, and a handler that awaits a promise gives control
  back until the promise settles. A mounted carousel is its props, its state, the calls
  suspended at an \<^verbatim>\<open>await\<close> (oldest first) and the effects it has produced so far.
  The machine describes the component for as long as rendering does not throw (see
  \<open>display\<close>).

  The handlers are closures of a render. The buttons of the overlay receive the handlers
  of the latest render. (A swipe calls the handler held by the gesture library, which is
  not among the sources; it is taken to hold the latest one, as the buttons do.) The
  hotkeys do not: \<^verbatim>\<open>useHotkeys(["w", "up"], previousItem, [index, length])\<close> keeps the handler
  of the render at which one of its dependencies last changed. No \<^verbatim>\<open>length\<close> is declared in
  the component, so the second dependency is \<^verbatim>\<open>window.length\<close>, taken as constant here.
  The hotkey handlers are therefore those of the first render or of the latest render at
  which \<^verbatim>\<open>index\<close> changed: they read the current index, but the props of that render,
  kept in \<open>hotkeyProps\<close>.
\<close>

record 'a carousel =
  props :: "'a props"
  cst :: cstate
  inflight :: "continuation list"
  trace :: "effect list"
  hotkeyProps :: "'a props"

definition mount :: "'a props \<Rightarrow> int option \<Rightarrow> 'a carousel" where
  "mount p initialIndex =
     \<lparr>props = p, cst = initial initialIndex, inflight = [], trace = [], hotkeyProps = p\<rparr>"

text \<open>
  A state update is followed by a render with the props of that moment; the hotkey
  handlers are replaced in it when the index has changed.
\<close>

definition commit :: "cstate \<Rightarrow> 'a carousel \<Rightarrow> 'a carousel" where
  "commit s m =
     m\<lparr>cst := s,
       hotkeyProps := (if index s = index (cst m) then hotkeyProps m else props m)\<rparr>"

text \<open>
  Modelled from the spec: the route module that passes \<^verbatim>\<open>onNextPage\<close> and
  \<^verbatim>\<open>onPreviousPage\<close> to the carousel is not among the sources. By sections 4.1 and 4.2 of
  the specification, \<^verbatim>\<open>onNextPage\<close> asks the page store for page \<open>pageNumber + 1\<close> of the
  current query and \<^verbatim>\<open>onPreviousPage\<close> for page \<open>pageNumber - 1\<close>, where \<open>pageNumber\<close> is
  the page number passed along with the callback; the request is the effect \<open>FetchPage\<close>.
\<close>

definition requested :: "'a props \<Rightarrow> callback \<Rightarrow> int" where
  "requested p c = (case c of OnNextPage \<Rightarrow> page p + 1 | OnPreviousPage \<Rightarrow> page p - 1)"

text \<open>
  The events. \<open>NextItem\<close> and \<open>PreviousItem\<close>: a button of the overlay is pressed (or a
  swipe is made). \<open>HotkeyNext\<close> and \<open>HotkeyPrevious\<close>: one of the keys \<^verbatim>\<open>s\<close>, \<^verbatim>\<open>down\<close>
  or \<^verbatim>\<open>w\<close>, \<^verbatim>\<open>up\<close> is pressed. \<open>QueryChange\<close>: the overlay commits a query text
  (\<^verbatim>\<open>setQueryInUrl\<close>). \<open>Settle\<close>: the promise awaited by the suspended call at a position
  settles, fulfilled or rejected. \<open>Rerender\<close>: the parent renders the component with new
  props.
\<close>

datatype 'a event =
    NextItem
  | PreviousItem
  | QueryChange string
  | Settle nat bool
  | Rerender "'a props"
  | HotkeyNext
  | HotkeyPrevious

text \<open>The props that the handler behind an event reads.\<close>

definition handlerProps :: "'a event \<Rightarrow> 'a carousel \<Rightarrow> 'a props" where
  "handlerProps e m =
     (case e of HotkeyNext \<Rightarrow> hotkeyProps m | HotkeyPrevious \<Rightarrow> hotkeyProps m | _ \<Rightarrow> props m)"

text \<open>
  A handler has been called with props \<open>p\<close>: either it has run to its end, or it is
  suspended after calling the page callback that it was passed with \<open>p\<close>.
\<close>

definition launch :: "'a props \<Rightarrow> 'a carousel \<Rightarrow> outcome \<Rightarrow> 'a carousel" where
  "launch p m r =
     (case r of
        Completed s es \<Rightarrow> (commit s m)\<lparr>trace := trace m @ es\<rparr>
      | Suspended k \<Rightarrow>
          m\<lparr>inflight := inflight m @ [k],
            trace := trace m @ [Call (awaited k), FetchPage (requested p (awaited k))]\<rparr>)"

text \<open>
  A rejected promise makes the \<^verbatim>\<open>await\<close> throw, so the rest of the async function does
  not run.
\<close>

definition settle :: "nat \<Rightarrow> bool \<Rightarrow> 'a carousel \<Rightarrow> 'a carousel" where
  "settle i fulfilled m =
     (if i < length (inflight m) then
        let k = inflight m ! i;
            others = take i (inflight m) @ drop (Suc i) (inflight m)
        in if fulfilled
           then (case resume k (cst m) of
                   (s, es) \<Rightarrow> (commit s m)\<lparr>inflight := others, trace := trace m @ es\<rparr>)
           else m\<lparr>inflight := others\<rparr>
      else m)"

text \<open>
  \<^verbatim>\<open>setQueryInUrl\<close> of the overlay calls the carousel's \<^verbatim>\<open>onQueryChange\<close> and then
  navigates to \<^verbatim>\<open>?q=\<close> followed by the encoded query.
\<close>

fun step :: "int \<Rightarrow> 'a carousel \<Rightarrow> 'a event \<Rightarrow> 'a carousel" where
  "step PER_PAGE m NextItem = launch (props m) m (nextItem (props m) (cst m))"
| "step PER_PAGE m PreviousItem = launch (props m) m (previousItem PER_PAGE (props m) (cst m))"
| "step PER_PAGE m (QueryChange q) =
     (commit (onQueryChange (cst m)) m)\<lparr>trace := trace m @ [Navigate q]\<rparr>"
| "step PER_PAGE m (Settle i fulfilled) = settle i fulfilled m"
| "step PER_PAGE m (Rerender p) = m\<lparr>props := p\<rparr>"
| "step PER_PAGE m HotkeyNext =
     launch (hotkeyProps m) m (nextItem (hotkeyProps m) (cst m))"
| "step PER_PAGE m HotkeyPrevious =
     launch (hotkeyProps m) m (previousItem PER_PAGE (hotkeyProps m) (cst m))"

definition run :: "int \<Rightarrow> 'a carousel \<Rightarrow> 'a event list \<Rightarrow> 'a carousel" where
  "run PER_PAGE m evs = foldl (step PER_PAGE) m evs"


definition pageCalls :: "effect list \<Rightarrow> callback list" where
  "pageCalls es = concat (map (\<lambda>e. case e of Call c \<Rightarrow> [c] | _ \<Rightarrow> []) es)"

definition fetches :: "effect list \<Rightarrow> int list" where
  "fetches es = concat (map (\<lambda>e. case e of FetchPage n \<Rightarrow> [n] | _ \<Rightarrow> []) es)"

section \<open>The single-page carousel (src/carousel.tsx and its later revision)\<close>

text \<open>
  \<^verbatim>\<open>VideoCarousel\<close> holds the whole list of videos and has no page callbacks. Its index
  is updated by functions of the previous index that use the remainder operator, whose
  result is \<^verbatim>\<open>NaN\<close> when the divisor is zero: the index is an integer or \<^verbatim>\<open>NaN\<close>, the
  latter being \<open>None\<close>. \<^verbatim>\<open>cropVideo\<close> is state only in the later revision; no navigation
  handler of either revision writes it.
\<close>

record vstate =
  currentVideoIndex :: "int option"
  vdirection :: int
  cropVideo :: bool

text \<open>JavaScript's \<^verbatim>\<open>a % b\<close> on integers: the remainder takes the sign of the dividend.\<close>

definition js_rem :: "int \<Rightarrow> int \<Rightarrow> int option" where
  "js_rem a b = (if b = 0 then None else Some (sgn a * (\<bar>a\<bar> mod \<bar>b\<bar>)))"

definition nextVideo :: "'v list \<Rightarrow> vstate \<Rightarrow> vstate" where
  "nextVideo videos s =
     s\<lparr>currentVideoIndex :=
          (case currentVideoIndex s of
             None \<Rightarrow> None
           | Some prevIndex \<Rightarrow> js_rem (prevIndex + 1) (int (length videos))),
       vdirection := 1\<rparr>"

definition previousVideo :: "'v list \<Rightarrow> vstate \<Rightarrow> vstate" where
  "previousVideo videos s =
     s\<lparr>currentVideoIndex :=
          (case currentVideoIndex s of
             None \<Rightarrow> None
           | Some prevIndex \<Rightarrow>
               (case js_rem (prevIndex - 1 + int (length videos)) (int (length videos)) of
                  None \<Rightarrow> None
                | Some r \<Rightarrow> Some (max 0 r))),
       vdirection := - 1\<rparr>"

text \<open>The later revision returns first when the list is empty.\<close>

definition nextVideo_guarded :: "'v list \<Rightarrow> vstate \<Rightarrow> vstate" where
  "nextVideo_guarded videos s = (if length videos = 0 then s else nextVideo videos s)"

definition previousVideo_guarded :: "'v list \<Rightarrow> vstate \<Rightarrow> vstate" where
  "previousVideo_guarded videos s = (if length videos = 0 then s else previousVideo videos s)"

text \<open>
  In \<^verbatim>\<open>VideoCarousel\<close> the index starts at \<open>0\<close> (\<^verbatim>\<open>useState(0)\<close>); the states in which
  it is a non-negative integer are the ones the wrap-around statements are about.
\<close>

definition index_ok :: "vstate \<Rightarrow> bool" where
  "index_ok s = (case currentVideoIndex s of None \<Rightarrow> False | Some i \<Rightarrow> 0 \<le> i)"

section \<open>The debounced query input of the overlay\<close>

text \<open>
  \<^verbatim>\<open>Overlay\<close> builds \<^verbatim>\<open>debounce(setQueryInUrl, 500)\<close> in its function body, so every
  render of the overlay makes a new debounced function, and the input's \<^verbatim>\<open>onChange\<close> of
  that render calls the new one. The library \<^verbatim>\<open>lodash.debounce\<close> is not among the
  sources; by its documentation a debounced function delays invoking its function until
  the wait has elapsed since the last time the debounced function was invoked, and invokes
  it with the last arguments. A debounced function is thus its timer, if one is running:
  the time at which it fires and the argument it will pass. Time is counted in
  milliseconds.

  The overlay keeps the timer of the debounced function of its latest render (\<open>timer\<close>),
  the timers still running of the debounced functions of earlier renders (\<open>earlier\<close>,
  oldest first), and the calls of \<^verbatim>\<open>setQueryInUrl\<close> made so far, each with its time
  (\<open>committed\<close>).
\<close>

record overlay =
  timer :: "(nat \<times> string) option"
  earlier :: "(nat \<times> string) list"
  committed :: "(nat \<times> string) list"

definition overlay0 :: overlay where
  "overlay0 = \<lparr>timer = None, earlier = [], committed = []\<rparr>"

text \<open>\<open>Change t v\<close>: the input changes to \<open>v\<close> at time \<open>t\<close>. \<open>Render t\<close>: the overlay is
  rendered again at time \<open>t\<close>.\<close>

datatype tick = Change nat string | Render nat

text \<open>Time reaches \<open>t\<close>: the timers due by then fire, the older ones first.\<close>

definition elapse :: "nat \<Rightarrow> overlay \<Rightarrow> overlay" where
  "elapse t ov =
     \<lparr>timer = (case timer ov of None \<Rightarrow> None | Some x \<Rightarrow> if fst x \<le> t then None else Some x),
      earlier = filter (\<lambda>x. \<not> fst x \<le> t) (earlier ov),
      committed = committed ov @ filter (\<lambda>x. fst x \<le> t) (earlier ov)
        @ (case timer ov of None \<Rightarrow> [] | Some x \<Rightarrow> if fst x \<le> t then [x] else [])\<rparr>"

fun occur :: "overlay \<Rightarrow> tick \<Rightarrow> overlay" where
  "occur ov (Change t v) = (elapse t ov)\<lparr>timer := Some (t + 500, v)\<rparr>"
| "occur ov (Render t) =
     (elapse t ov)\<lparr>timer := None,
       earlier := earlier (elapse t ov)
         @ (case timer (elapse t ov) of None \<Rightarrow> [] | Some x \<Rightarrow> [x])\<rparr>"

text \<open>Nothing more happens: every running timer fires.\<close>

definition quiet :: "overlay \<Rightarrow> overlay" where
  "quiet ov =
     \<lparr>timer = None, earlier = [],
      committed = committed ov @ earlier ov
        @ (case timer ov of None \<Rightarrow> [] | Some x \<Rightarrow> [x])\<rparr>"

text \<open>The query commits that a sequence of changes and renders leads to.\<close>

definition commits :: "tick list \<Rightarrow> (nat \<times> string) list" where
  "commits ts = committed (quiet (foldl occur overlay0 ts))"

text \<open>
  A burst: changes that each come a given number of milliseconds after the one before,
  the first one that long after time \<open>t\<close>; and the time and value of the commit that
  coalescing the burst into the last change yields.
\<close>

fun burst :: "nat \<Rightarrow> (nat \<times> string) list \<Rightarrow> tick list" where
  "burst t [] = []"
| "burst t ((gap, v) # xs) = Change (t + gap) v # burst (t + gap) xs"

fun coalesced :: "nat \<Rightarrow> string \<Rightarrow> (nat \<times> string) list \<Rightarrow> nat \<times> string" where
  "coalesced t v [] = (t + 500, v)"
| "coalesced t v ((gap, w) # xs) = coalesced (t + gap) w xs"

text \<open>
  Example props: a full page of forty items out of a given number of pages, and a page
  without items.
\<close>

abbreviation fullPage :: "int \<Rightarrow> int \<Rightarrow> unit props" where
  "fullPage pg pgs \<equiv>
     \<lparr>items = replicate 40 (), loading = False, onItemChange = True, page = pg,
      totalPages = pgs, totalResults = 40 * pgs\<rparr>"


section \<open>Basic facts\<close>

lemma pageCalls_append [simp]: "pageCalls (xs @ ys) = pageCalls xs @ pageCalls ys"
  by (simp add: pageCalls_def)

lemma fetches_append [simp]: "fetches (xs @ ys) = fetches xs @ fetches ys"
  by (simp add: fetches_def)

lemma pageCalls_simps [simp]:
  "pageCalls [] = []" "pageCalls (Call c # es) = c # pageCalls es"
  "pageCalls (FetchPage n # es) = pageCalls es" "pageCalls (OnItemChange i # es) = pageCalls es"
  "pageCalls (Navigate q # es) = pageCalls es"
  by (simp_all add: pageCalls_def)

lemma fetches_simps [simp]:
  "fetches [] = []" "fetches (Call c # es) = fetches es"
  "fetches (FetchPage n # es) = n # fetches es" "fetches (OnItemChange i # es) = fetches es"
  "fetches (Navigate q # es) = fetches es"
  by (simp_all add: fetches_def)

lemma hasPreviousItem_nonneg:
  "0 \<le> index s \<Longrightarrow> hasPreviousItem p s \<longleftrightarrow> index s > 0 \<or> page p > 1"
  by (auto simp: hasPreviousItem_def)

lemma nextItem_at_last_item_never_suspends:
  "index s + 1 = int (length (items p)) \<Longrightarrow> nextItem p s \<noteq> Suspended k"
  by (simp add: nextItem_def Let_def finish_def)

text \<open>Whenever \<^verbatim>\<open>nextItem\<close> awaits \<^verbatim>\<open>onNextPage\<close>, it goes on to index \<open>0\<close>, forward.\<close>

lemma nextItem_Suspended:
  "nextItem p s = Suspended k \<Longrightarrow>
     k = \<lparr>awaited = OnNextPage, thenIndex = 0, thenDirection = 1, thenNotify = onItemChange p\<rparr>"
  by (auto simp: nextItem_def finish_def Let_def split: if_splits)

lemma previous_suspends:
  assumes "e = PreviousItem \<or> e = HotkeyPrevious"
    and "index (cst m) = 0" and "page (handlerProps e m) > 1"
  shows "step PER_PAGE m e =
     m\<lparr>inflight := inflight m @ [\<lparr>awaited = OnPreviousPage, thenIndex = PER_PAGE - 1,
            thenDirection = - 1, thenNotify = onItemChange (handlerProps e m)\<rparr>],
       trace := trace m @ [Call OnPreviousPage, FetchPage (page (handlerProps e m) - 1)]\<rparr>"
  using assms
  by (auto simp: handlerProps_def previousItem_def hasPreviousItem_def launch_def requested_def)

lemma previous_suspends_repeatedly:
  assumes "e = PreviousItem \<or> e = HotkeyPrevious"
    and "index (cst m) = 0" and "page (handlerProps e m) > 1"
  shows "run PER_PAGE m (replicate n e) =
     m\<lparr>inflight := inflight m @ replicate n \<lparr>awaited = OnPreviousPage, thenIndex = PER_PAGE - 1,
            thenDirection = - 1, thenNotify = onItemChange (handlerProps e m)\<rparr>,
       trace := trace m @ concat (replicate n
            [Call OnPreviousPage, FetchPage (page (handlerProps e m) - 1)])\<rparr>"
  using assms(2,3)
proof (induction n arbitrary: m)
  case 0
  then show ?case by (simp add: run_def)
next
  case (Suc n)
  let ?m' = "step PER_PAGE m e"
  note st = previous_suspends [OF assms(1) Suc.prems, of PER_PAGE]
  have hp: "handlerProps e ?m' = handlerProps e m"
    unfolding st using assms(1) by (auto simp: handlerProps_def)
  have "run PER_PAGE m (replicate (Suc n) e) = run PER_PAGE ?m' (replicate n e)"
    by (simp add: run_def)
  also have "\<dots> = ?m'\<lparr>inflight := inflight ?m' @ replicate n \<lparr>awaited = OnPreviousPage,
            thenIndex = PER_PAGE - 1, thenDirection = - 1,
            thenNotify = onItemChange (handlerProps e ?m')\<rparr>,
       trace := trace ?m' @ concat (replicate n
            [Call OnPreviousPage, FetchPage (page (handlerProps e ?m') - 1)])\<rparr>"
  proof (rule Suc.IH)
    show "index (cst ?m') = 0" unfolding st using Suc.prems by simp
    show "page (handlerProps e ?m') > 1" unfolding hp using Suc.prems by simp
  qed
  finally show ?case unfolding hp unfolding st by (simp add: replicate_app_Cons_same)
qed

lemma calls_of_repeated_previous:
  "pageCalls (concat (replicate n [Call OnPreviousPage, FetchPage k])) = replicate n OnPreviousPage"
  by (induction n) simp_all

text \<open>
  Away from the place where \<^verbatim>\<open>nextItem\<close> calls the page callback, a step forward and a
  step back are local: the index returns, and no page callback is called.
\<close>

lemma local_move_round_trip:
  assumes "0 < index (cst m)" and "index (cst m) < int (length (items (props m))) - 1"
    and "index (cst m) + 2 \<noteq> int (length (items (props m)))
         \<or> totalPages (props m) - 1 \<le> page (props m)"
  shows "cst (run PER_PAGE m [NextItem, PreviousItem]) = (cst m)\<lparr>direction := - 1\<rparr>
       \<and> pageCalls (trace (run PER_PAGE m [NextItem, PreviousItem])) = pageCalls (trace m)
       \<and> inflight (run PER_PAGE m [NextItem, PreviousItem]) = inflight m"
  using assms
  by (auto simp: nextItem_def previousItem_def hasNextItem_def hasPreviousItem_def
       launch_def commit_def run_def finish_def Let_def)

text \<open>
  The hotkeys and the buttons can disagree. Mounted on page 1 at index \<open>0\<close> and rendered
  again with page 2, the key \<^verbatim>\<open>w\<close> still runs the handler of the first render, which
  returns at once, while the button calls \<^verbatim>\<open>onPreviousPage\<close>; mounted on page 2 and
  rendered again with page 1, it is the other way round.
\<close>

lemma hotkey_reads_props_of_last_index_change:
  "step 40 (run 40 (mount (fullPage 1 3) None) [Rerender (fullPage 2 3)]) HotkeyPrevious
     = run 40 (mount (fullPage 1 3) None) [Rerender (fullPage 2 3)]
   \<and> pageCalls (trace (step 40 (run 40 (mount (fullPage 1 3) None) [Rerender (fullPage 2 3)])
        PreviousItem)) = [OnPreviousPage]
   \<and> pageCalls (trace (step 40 (run 40 (mount (fullPage 2 3) None) [Rerender (fullPage 1 3)])
        HotkeyPrevious)) = [OnPreviousPage]
   \<and> step 40 (run 40 (mount (fullPage 2 3) None) [Rerender (fullPage 1 3)]) PreviousItem
     = run 40 (mount (fullPage 2 3) None) [Rerender (fullPage 1 3)]"
  by (simp add: mount_def initial_def run_def previousItem_def hasPreviousItem_def launch_def
       commit_def requested_def)

lemma js_rem_nonneg: "0 \<le> a \<Longrightarrow> 0 < b \<Longrightarrow> js_rem a b = Some (a mod b)"
  by (cases "a = 0") (simp_all add: js_rem_def)

lemma nextVideo_index_ok: "videos \<noteq> [] \<Longrightarrow> index_ok s \<Longrightarrow> index_ok (nextVideo videos s)"
  by (auto simp: index_ok_def nextVideo_def js_rem_nonneg split: option.splits)

lemma previousVideo_index_ok:
  "videos \<noteq> [] \<Longrightarrow> index_ok s \<Longrightarrow> index_ok (previousVideo videos s)"
  by (auto simp: index_ok_def previousVideo_def js_rem_def split: option.splits)

text \<open>
  As long as the overlay is not rendered again, a burst of changes that each come less
  than 500 ms after the one before leads to one commit, of the last value, 500 ms after
  the last change.
\<close>

lemma burst_after_change:
  assumes "earlier ov = []" and "timer ov = Some (t + 500, v)"
    and "\<forall>x \<in> set xs. fst x < 500"
  shows "committed (quiet (foldl occur ov (burst t xs))) = committed ov @ [coalesced t v xs]"
  using assms
proof (induction xs arbitrary: t v ov)
  case Nil
  then show ?case by (simp add: quiet_def)
next
  case (Cons x xs)
  obtain gap w where x: "x = (gap, w)" by (cases x)
  let ?ov = "occur ov (Change (t + gap) w)"
  from Cons.prems x have g: "gap < 500" by simp
  have e: "earlier ?ov = []" and ti: "timer ?ov = Some (t + gap + 500, w)"
    and c: "committed ?ov = committed ov"
    using Cons.prems(1,2) g by (simp_all add: elapse_def)
  have "committed (quiet (foldl occur ?ov (burst (t + gap) xs)))
          = committed ?ov @ [coalesced (t + gap) w xs]"
    using e ti Cons.prems(3) by (intro Cons.IH) simp_all
  with c show ?case by (simp add: x)
qed

lemma burst_in_one_render_is_one_commit:
  assumes "\<forall>x \<in> set xs. fst x < 500"
  shows "commits (Change t v # burst t xs) = [coalesced t v xs]"
proof -
  have "committed (quiet (foldl occur (occur overlay0 (Change t v)) (burst t xs)))
          = committed (occur overlay0 (Change t v)) @ [coalesced t v xs]"
    using assms by (intro burst_after_change) (simp_all add: overlay0_def elapse_def)
  then show ?thesis by (simp add: commits_def overlay0_def elapse_def)
qed

section \<open>Moving forward\<close>

text \<open>
  Claim C1. From the last item of a page that is not the last page, \<^verbatim>\<open>advance()\<close> is to
  issue exactly one fetch of the next page and then set the index to \<open>0\<close>; in particular
  from page 1 of 2 with forty items and index 39. Here the component is evaluated in that
  state: \<^verbatim>\<open>hasNextItem\<close> is false there, so \<^verbatim>\<open>nextItem\<close> returns at its first statement;
  no page callback is called and nothing changes.
\<close>

theorem nextItem_last_item_page_1_of_2:
  "\<not> hasNextItem (fullPage 1 2) (initial (Some 39))
   \<and> step 40 (mount (fullPage 1 2) (Some 39)) NextItem = mount (fullPage 1 2) (Some 39)
   \<and> pageCalls (trace (step 40 (mount (fullPage 1 2) (Some 39)) NextItem)) = []
   \<and> index (cst (step 40 (mount (fullPage 1 2) (Some 39)) NextItem)) = 39"
  by (simp add: mount_def initial_def nextItem_def hasNextItem_def launch_def commit_def pageCalls_def)

text \<open>
  Claim C2. The flag \<^verbatim>\<open>hasNext\<close> is to be \<^verbatim>\<open>index < items.length - 1 || pageNumber < totalPages\<close>.
  On the last item of page 1 of 2 that expression is true, while the component's
  \<^verbatim>\<open>hasNextItem\<close> is false and the button that moves forward is disabled.
  (\<^verbatim>\<open>hasPreviousItem\<close> agrees with the stated expression whenever the index is not
  negative: lemma \<open>hasPreviousItem_nonneg\<close>.)
\<close>

theorem hasNextItem_last_item_page_1_of_2:
  "\<not> hasNextItem (fullPage 1 2) \<lparr>index = 39, direction = 1, crop = False\<rparr>
   \<and> nextDisabled (render (fullPage 1 2) \<lparr>index = 39, direction = 1, crop = False\<rparr>)
   \<and> ((39::int) < int (length (items (fullPage 1 2))) - 1 \<or> page (fullPage 1 2) < totalPages (fullPage 1 2))"
  by (simp add: render_def hasNextItem_def)

text \<open>
  Claim C6. Between the first and the last item of a page, \<^verbatim>\<open>advance()\<close> followed by
  \<^verbatim>\<open>retreat()\<close> is to return to the original index without a fetch. At the item before the
  last one (index 38 of forty items, page 1 of 3) \<^verbatim>\<open>nextItem\<close> calls \<^verbatim>\<open>onNextPage\<close>; once that
  is fulfilled the index is \<open>0\<close>, and \<^verbatim>\<open>previousItem\<close> then either does nothing (props
  unchanged) or, with the props of page 2, calls \<^verbatim>\<open>onPreviousPage\<close> and ends at index 39.
\<close>

theorem nextItem_before_last_item_calls_onNextPage:
  "pageCalls (trace (step 40 (mount (fullPage 1 3) (Some 38)) NextItem)) = [OnNextPage]
   \<and> index (cst (run 40 (mount (fullPage 1 3) (Some 38))
        [NextItem, Settle 0 True, PreviousItem])) = 0
   \<and> index (cst (run 40 (mount (fullPage 1 3) (Some 38))
        [NextItem, Rerender (fullPage 2 3), Settle 0 True, PreviousItem, Settle 0 True])) = 39
   \<and> pageCalls (trace (run 40 (mount (fullPage 1 3) (Some 38))
        [NextItem, Rerender (fullPage 2 3), Settle 0 True, PreviousItem, Settle 0 True]))
       = [OnNextPage, OnPreviousPage]"
  by (simp add: mount_def initial_def nextItem_def previousItem_def hasNextItem_def
       hasPreviousItem_def launch_def commit_def run_def settle_def resume_def finish_def pageCalls_def)

section \<open>Moving backward across a page boundary\<close>



section \<open>The two ends of the collection\<close>



section \<open>Calls made while a page callback is pending\<close>

text \<open>
  Claim C3, as stated: while a boundary fetch is pending, a second \<^verbatim>\<open>advance()\<close> or
  \<^verbatim>\<open>retreat()\<close> is rejected, so at most one fetch is in flight. At index 38 of forty items on
  page 1 of 3, two calls of \<^verbatim>\<open>nextItem\<close> in a row leave two calls suspended and have called
  \<^verbatim>\<open>onNextPage\<close> twice; and a \<^verbatim>\<open>previousItem\<close> made while the first call is pending moves the
  index to 37.
\<close>

theorem second_call_while_pending_counterexample:
  "\<not> length (inflight (run 40 (mount (fullPage 1 3) (Some 38)) [NextItem, NextItem])) \<le> 1
   \<and> pageCalls (trace (run 40 (mount (fullPage 1 3) (Some 38)) [NextItem, NextItem]))
       = [OnNextPage, OnNextPage]
   \<and> inflight (run 40 (mount (fullPage 1 3) (Some 38)) [NextItem, PreviousItem])
       = inflight (run 40 (mount (fullPage 1 3) (Some 38)) [NextItem])
   \<and> index (cst (run 40 (mount (fullPage 1 3) (Some 38)) [NextItem])) = 38
   \<and> index (cst (run 40 (mount (fullPage 1 3) (Some 38)) [NextItem, PreviousItem])) = 37"
  by (simp add: mount_def initial_def nextItem_def previousItem_def hasNextItem_def
       hasPreviousItem_def launch_def commit_def run_def finish_def pageCalls_def)

text \<open>
  Claim C3, amended. No call is rejected while a page callback is pending: the component
  has no state for a fetch in progress, and neither handler looks at the pending calls.
  At \<open>index = 0\<close> with a page number greater than \<open>1\<close> in the props that \<^verbatim>\<open>previousItem\<close>
  reads, \<open>n\<close> calls made before any promise settles call \<^verbatim>\<open>onPreviousPage\<close> \<open>n\<close> times and
  leave \<open>n\<close> more calls pending, whatever was pending before, with index and direction as
  they were. A \<^verbatim>\<open>previousItem\<close> at \<open>index > 0\<close>, and a \<^verbatim>\<open>nextItem\<close> with
  \<open>index + 2 < items.length\<close>, made while calls are pending is carried out at once as a
  local move; the pending calls stay pending and no page callback is called.
\<close>

theorem no_call_is_rejected_while_pending:
  "((e = PreviousItem \<or> e = HotkeyPrevious) \<and> index (cst m) = 0 \<and> page (handlerProps e m) > 1 \<longrightarrow>
       inflight (run PER_PAGE m (replicate n e))
         = inflight m @ replicate n \<lparr>awaited = OnPreviousPage, thenIndex = PER_PAGE - 1,
              thenDirection = - 1, thenNotify = onItemChange (handlerProps e m)\<rparr>
     \<and> pageCalls (trace (run PER_PAGE m (replicate n e)))
         = pageCalls (trace m) @ replicate n OnPreviousPage
     \<and> cst (run PER_PAGE m (replicate n e)) = cst m)
   \<and> ((e = PreviousItem \<or> e = HotkeyPrevious) \<and> 0 < index (cst m) \<longrightarrow>
       cst (step PER_PAGE m e) = (cst m)\<lparr>index := index (cst m) - 1, direction := - 1\<rparr>
     \<and> inflight (step PER_PAGE m e) = inflight m
     \<and> pageCalls (trace (step PER_PAGE m e)) = pageCalls (trace m))
   \<and> ((e = NextItem \<or> e = HotkeyNext)
        \<and> index (cst m) + 2 < int (length (items (handlerProps e m))) \<longrightarrow>
       cst (step PER_PAGE m e) = (cst m)\<lparr>index := index (cst m) + 1, direction := 1\<rparr>
     \<and> inflight (step PER_PAGE m e) = inflight m
     \<and> pageCalls (trace (step PER_PAGE m e)) = pageCalls (trace m))"
proof (intro conjI impI)
  assume "(e = PreviousItem \<or> e = HotkeyPrevious) \<and> index (cst m) = 0
          \<and> page (handlerProps e m) > 1"
  then have r: "run PER_PAGE m (replicate n e) =
     m\<lparr>inflight := inflight m @ replicate n \<lparr>awaited = OnPreviousPage, thenIndex = PER_PAGE - 1,
            thenDirection = - 1, thenNotify = onItemChange (handlerProps e m)\<rparr>,
       trace := trace m @ concat (replicate n
            [Call OnPreviousPage, FetchPage (page (handlerProps e m) - 1)])\<rparr>"
    by (intro previous_suspends_repeatedly) simp_all
  show "inflight (run PER_PAGE m (replicate n e))
         = inflight m @ replicate n \<lparr>awaited = OnPreviousPage, thenIndex = PER_PAGE - 1,
              thenDirection = - 1, thenNotify = onItemChange (handlerProps e m)\<rparr>"
    unfolding r by simp
  show "pageCalls (trace (run PER_PAGE m (replicate n e)))
         = pageCalls (trace m) @ replicate n OnPreviousPage"
    unfolding r by (simp add: calls_of_repeated_previous)
  show "cst (run PER_PAGE m (replicate n e)) = cst m"
    unfolding r by simp
next
  assume "(e = PreviousItem \<or> e = HotkeyPrevious) \<and> 0 < index (cst m)"
  then show "cst (step PER_PAGE m e) = (cst m)\<lparr>index := index (cst m) - 1, direction := - 1\<rparr>"
    and "inflight (step PER_PAGE m e) = inflight m"
    and "pageCalls (trace (step PER_PAGE m e)) = pageCalls (trace m)"
    by (auto simp: previousItem_def hasPreviousItem_def launch_def commit_def finish_def Let_def)
next
  assume "(e = NextItem \<or> e = HotkeyNext)
          \<and> index (cst m) + 2 < int (length (items (handlerProps e m)))"
  then show "cst (step PER_PAGE m e) = (cst m)\<lparr>index := index (cst m) + 1, direction := 1\<rparr>"
    and "inflight (step PER_PAGE m e) = inflight m"
    and "pageCalls (trace (step PER_PAGE m e)) = pageCalls (trace m)"
    by (auto simp: handlerProps_def nextItem_def hasNextItem_def launch_def commit_def
        finish_def Let_def)
qed

text \<open>
  On the first item of page 2 of 3 with one call of \<^verbatim>\<open>onPreviousPage\<close> pending, two more
  presses of the button leave three calls pending. At index 38 of page 1 of 3 with a call
  of \<^verbatim>\<open>onNextPage\<close> pending, the key \<^verbatim>\<open>w\<close> moves to index 37 and the call stays pending.
\<close>

theorem no_call_is_rejected_while_pending_witness:
  "index (cst (step 40 (mount (fullPage 2 3) None) PreviousItem)) = 0
   \<and> page (handlerProps PreviousItem (step 40 (mount (fullPage 2 3) None) PreviousItem)) > 1
   \<and> length (inflight (step 40 (mount (fullPage 2 3) None) PreviousItem)) = 1
   \<and> length (inflight (run 40 (step 40 (mount (fullPage 2 3) None) PreviousItem)
        (replicate 2 PreviousItem))) = 3
   \<and> pageCalls (trace (run 40 (step 40 (mount (fullPage 2 3) None) PreviousItem)
        (replicate 2 PreviousItem))) = [OnPreviousPage, OnPreviousPage, OnPreviousPage]
   \<and> 0 < index (cst (step 40 (mount (fullPage 1 3) (Some 38)) NextItem))
   \<and> length (inflight (step 40 (mount (fullPage 1 3) (Some 38)) NextItem)) = 1
   \<and> index (cst (step 40 (step 40 (mount (fullPage 1 3) (Some 38)) NextItem)
        HotkeyPrevious)) = 37
   \<and> length (inflight (step 40 (step 40 (mount (fullPage 1 3) (Some 38)) NextItem)
        HotkeyPrevious)) = 1"
proof -
  let ?m = "step 40 (mount (fullPage 2 3) None) PreviousItem"
  let ?k = "step 40 (mount (fullPage 1 3) (Some 38)) NextItem"
  have m: "?m = \<lparr>props = fullPage 2 3, cst = \<lparr>index = 0, direction = 1, crop = False\<rparr>,
      inflight = [\<lparr>awaited = OnPreviousPage, thenIndex = 39, thenDirection = - 1,
                   thenNotify = True\<rparr>],
      trace = [Call OnPreviousPage, FetchPage 1], hotkeyProps = fullPage 2 3\<rparr>"
    by (simp add: mount_def initial_def previousItem_def hasPreviousItem_def launch_def
        requested_def)
  have k: "?k = \<lparr>props = fullPage 1 3, cst = \<lparr>index = 38, direction = 1, crop = False\<rparr>,
      inflight = [\<lparr>awaited = OnNextPage, thenIndex = 0, thenDirection = 1,
                   thenNotify = True\<rparr>],
      trace = [Call OnNextPage, FetchPage 2], hotkeyProps = fullPage 1 3\<rparr>"
    by (simp add: mount_def initial_def nextItem_def hasNextItem_def launch_def requested_def)
  have r: "replicate 2 OnPreviousPage = [OnPreviousPage, OnPreviousPage]"
    by (simp add: numeral_2_eq_2)
  show ?thesis
    using no_call_is_rejected_while_pending [of PreviousItem ?m 40 2]
      no_call_is_rejected_while_pending [of HotkeyPrevious ?k 40 0]
    unfolding m k by (simp add: handlerProps_def r)
qed

section \<open>Committing a query text\<close>

text \<open>
  Claim C4, as stated: committing a query resets the cursor to \<open>index = 0\<close> and
  \<open>direction = forward\<close>, and the result of a fetch that was in flight is discarded when it
  resolves after the reset. On the first item of page 3 of 5, \<^verbatim>\<open>previousItem\<close> is called,
  then a query is committed, then the promise of \<^verbatim>\<open>onPreviousPage\<close> is fulfilled: the index
  ends at 39 and the direction at \<open>-1\<close>. And a query committed after a local step back from
  index 17 leaves the direction at \<open>-1\<close>.
\<close>

theorem query_reset_counterexample:
  "index (cst (run 40 (mount (fullPage 3 5) None)
       [PreviousItem, QueryChange ''cat'', Settle 0 True])) = 39
   \<and> direction (cst (run 40 (mount (fullPage 3 5) None)
       [PreviousItem, QueryChange ''cat'', Settle 0 True])) = - 1
   \<and> cst (run 40 (mount (fullPage 3 5) (Some 17)) [PreviousItem, QueryChange ''cat''])
       = \<lparr>index = 0, direction = - 1, crop = False\<rparr>"
  by (simp add: mount_def initial_def previousItem_def hasPreviousItem_def onQueryChange_def
       launch_def commit_def run_def settle_def resume_def finish_def)

text \<open>
  Claim C4, amended. Committing a query text sets \<open>index = 0\<close> and navigates to the query;
  it changes nothing else of the component: the direction stays (after a local step back
  it is still \<open>-1\<close>), and so do the props (the page number is a prop) and the pending calls.
  No tag is compared when a promise settles. A \<^verbatim>\<open>previousItem\<close> suspended at \<open>index = 0\<close>
  with a page number greater than \<open>1\<close>, whose promise is fulfilled after the commit, sets
  \<open>index = PER_PAGE - 1\<close> and \<open>direction = -1\<close>; a suspended \<^verbatim>\<open>nextItem\<close> whose promise is
  fulfilled after the commit sets \<open>index = 0\<close> and \<open>direction = 1\<close>. When the promise is
  rejected, the index stays \<open>0\<close>.
\<close>

theorem query_change_sets_index_only:
  "cst (step PER_PAGE m (QueryChange q)) = (cst m)\<lparr>index := 0\<rparr>
   \<and> props (step PER_PAGE m (QueryChange q)) = props m
   \<and> inflight (step PER_PAGE m (QueryChange q)) = inflight m
   \<and> trace (step PER_PAGE m (QueryChange q)) = trace m @ [Navigate q]
   \<and> ((e = PreviousItem \<or> e = HotkeyPrevious) \<and> 0 < index (cst m) \<longrightarrow>
        cst (run PER_PAGE m [e, QueryChange q]) = (cst m)\<lparr>index := 0, direction := - 1\<rparr>)
   \<and> ((e = PreviousItem \<or> e = HotkeyPrevious) \<and> index (cst m) = 0
        \<and> page (handlerProps e m) > 1 \<longrightarrow>
        cst (run PER_PAGE m [e, QueryChange q, Settle (length (inflight m)) True])
          = (cst m)\<lparr>index := PER_PAGE - 1, direction := - 1\<rparr>
        \<and> cst (run PER_PAGE m [e, QueryChange q, Settle (length (inflight m)) False])
          = (cst m)\<lparr>index := 0\<rparr>)
   \<and> ((e = NextItem \<or> e = HotkeyNext) \<and> nextItem (handlerProps e m) (cst m) = Suspended k \<longrightarrow>
        cst (run PER_PAGE m [e, QueryChange q, Settle (length (inflight m)) True])
          = (cst m)\<lparr>index := 0, direction := 1\<rparr>
        \<and> cst (run PER_PAGE m [e, QueryChange q, Settle (length (inflight m)) False])
          = (cst m)\<lparr>index := 0\<rparr>)"
proof (intro conjI impI)
  show "cst (step PER_PAGE m (QueryChange q)) = (cst m)\<lparr>index := 0\<rparr>"
    and "props (step PER_PAGE m (QueryChange q)) = props m"
    and "inflight (step PER_PAGE m (QueryChange q)) = inflight m"
    and "trace (step PER_PAGE m (QueryChange q)) = trace m @ [Navigate q]"
    by (simp_all add: onQueryChange_def commit_def)
next
  assume "(e = PreviousItem \<or> e = HotkeyPrevious) \<and> 0 < index (cst m)"
  then show "cst (run PER_PAGE m [e, QueryChange q]) = (cst m)\<lparr>index := 0, direction := - 1\<rparr>"
    by (auto simp: run_def previousItem_def hasPreviousItem_def launch_def commit_def finish_def
        onQueryChange_def Let_def)
next
  assume "(e = PreviousItem \<or> e = HotkeyPrevious) \<and> index (cst m) = 0
          \<and> page (handlerProps e m) > 1"
  then show "cst (run PER_PAGE m [e, QueryChange q, Settle (length (inflight m)) True])
          = (cst m)\<lparr>index := PER_PAGE - 1, direction := - 1\<rparr>"
    and "cst (run PER_PAGE m [e, QueryChange q, Settle (length (inflight m)) False])
          = (cst m)\<lparr>index := 0\<rparr>"
    by (auto simp: run_def handlerProps_def previousItem_def hasPreviousItem_def launch_def
        commit_def finish_def onQueryChange_def settle_def resume_def Let_def)
next
  assume a: "(e = NextItem \<or> e = HotkeyNext) \<and> nextItem (handlerProps e m) (cst m) = Suspended k"
  then have k: "k = \<lparr>awaited = OnNextPage, thenIndex = 0, thenDirection = 1,
                     thenNotify = onItemChange (handlerProps e m)\<rparr>"
    by (auto dest: nextItem_Suspended)
  from a show "cst (run PER_PAGE m [e, QueryChange q, Settle (length (inflight m)) True])
          = (cst m)\<lparr>index := 0, direction := 1\<rparr>"
    and "cst (run PER_PAGE m [e, QueryChange q, Settle (length (inflight m)) False])
          = (cst m)\<lparr>index := 0\<rparr>"
    unfolding k
    by (auto simp: run_def handlerProps_def launch_def commit_def finish_def onQueryChange_def
        settle_def resume_def Let_def)
qed

text \<open>
  A commit after a local step back from index 17; a commit while the call of
  \<^verbatim>\<open>onPreviousPage\<close> from the first item of page 3 is pending; a commit while a call of
  \<^verbatim>\<open>onNextPage\<close> is pending.
\<close>

theorem query_change_sets_index_only_witness:
  "0 < index (cst (mount (fullPage 3 5) (Some 17)))
   \<and> cst (run 40 (mount (fullPage 3 5) (Some 17)) [PreviousItem, QueryChange ''cat''])
       = \<lparr>index = 0, direction = - 1, crop = False\<rparr>
   \<and> index (cst (mount (fullPage 3 5) None)) = 0
   \<and> page (handlerProps PreviousItem (mount (fullPage 3 5) None)) > 1
   \<and> cst (run 40 (mount (fullPage 3 5) None) [PreviousItem, QueryChange ''cat'', Settle 0 True])
       = \<lparr>index = 39, direction = - 1, crop = False\<rparr>
   \<and> nextItem (handlerProps NextItem (mount (fullPage 3 5) (Some 38)))
        (cst (mount (fullPage 3 5) (Some 38)))
       = Suspended \<lparr>awaited = OnNextPage, thenIndex = 0, thenDirection = 1, thenNotify = True\<rparr>
   \<and> cst (run 40 (mount (fullPage 3 5) (Some 38)) [NextItem, QueryChange ''cat'', Settle 0 True])
       = \<lparr>index = 0, direction = 1, crop = False\<rparr>"
proof -
  have n: "nextItem (handlerProps NextItem (mount (fullPage 3 5) (Some 38)))
             (cst (mount (fullPage 3 5) (Some 38)))
       = Suspended \<lparr>awaited = OnNextPage, thenIndex = 0, thenDirection = 1, thenNotify = True\<rparr>"
    by (simp add: mount_def initial_def handlerProps_def nextItem_def hasNextItem_def)
  show ?thesis
    using query_change_sets_index_only
        [of 40 "mount (fullPage 3 5) (Some 17)" "''cat''" PreviousItem]
      query_change_sets_index_only [of 40 "mount (fullPage 3 5) None" "''cat''" PreviousItem]
      query_change_sets_index_only [of 40 "mount (fullPage 3 5) (Some 38)" "''cat''" NextItem
          "\<lparr>awaited = OnNextPage, thenIndex = 0, thenDirection = 1, thenNotify = True\<rparr>"]
      n
    by (simp add: mount_def initial_def handlerProps_def)
qed

section \<open>A page without items\<close>




section \<open>Debouncing the query input\<close>

text \<open>
  Claim C9. A burst of changes that each come less than 500 ms after the one before is to
  lead to exactly one commit, of the last value; in particular five changes 100 ms apart.
  Here five such changes are evaluated twice. When the overlay is rendered again between
  the third and the fourth change, the debounced function of the first render still fires,
  and there are two commits: of the third value at 700 ms and of the last value at 900 ms.
  Without that render there is the one commit of the last value at 900 ms (in general:
  lemma \<open>burst_in_one_render_is_one_commit\<close>).
\<close>

theorem render_within_burst_commits_twice:
  "commits [Change 0 ''h'', Change 100 ''he'', Change 200 ''hel'', Render 250,
            Change 300 ''hell'', Change 400 ''hello'']
     = [(700, ''hel''), (900, ''hello'')]
   \<and> commits [Change 0 ''h'', Change 100 ''he'', Change 200 ''hel'',
            Change 300 ''hell'', Change 400 ''hello'']
     = [(900, ''hello'')]"
  by (simp add: commits_def overlay0_def elapse_def quiet_def)

section \<open>Wrap-around in the single-page carousel\<close>

text \<open>
  Claim C10. For a non-empty list of videos and a non-negative index, \<^verbatim>\<open>nextVideo\<close> sets
  the index to \<open>(index + 1) mod videos.length\<close> and the direction to \<open>1\<close>; from the last
  video the index becomes \<open>0\<close>. \<^verbatim>\<open>previousVideo\<close> at index \<open>0\<close> sets the index to
  \<open>videos.length - 1\<close>. The component has no page callback, and the handlers write the index
  and the direction only. The later revision does the same on a non-empty list and returns
  the state unchanged on the empty list. (A non-negative index stays non-negative on
  non-empty lists: lemmas \<open>nextVideo_index_ok\<close> and \<open>previousVideo_index_ok\<close>.)
\<close>

theorem videoCarousel_wraps_around:
  fixes videos :: "'v list"
  assumes "videos \<noteq> []" and "0 \<le> i"
  shows "nextVideo videos \<lparr>currentVideoIndex = Some i, vdirection = d, cropVideo = c\<rparr>
           = \<lparr>currentVideoIndex = Some ((i + 1) mod int (length videos)), vdirection = 1,
              cropVideo = c\<rparr>
       \<and> nextVideo videos
             \<lparr>currentVideoIndex = Some (int (length videos) - 1), vdirection = d, cropVideo = c\<rparr>
           = \<lparr>currentVideoIndex = Some 0, vdirection = 1, cropVideo = c\<rparr>
       \<and> previousVideo videos \<lparr>currentVideoIndex = Some 0, vdirection = d, cropVideo = c\<rparr>
           = \<lparr>currentVideoIndex = Some (int (length videos) - 1), vdirection = - 1,
              cropVideo = c\<rparr>
       \<and> nextVideo_guarded videos s = nextVideo videos s
       \<and> previousVideo_guarded videos s = previousVideo videos s
       \<and> nextVideo_guarded ([] :: 'v list) s = s
       \<and> previousVideo_guarded ([] :: 'v list) s = s"
proof -
  from assms(1) have n: "0 < int (length videos)" by simp
  have 1: "js_rem (i + 1) (int (length videos)) = Some ((i + 1) mod int (length videos))"
    using assms(2) n by (intro js_rem_nonneg) simp_all
  have 2: "js_rem (int (length videos)) (int (length videos)) = Some 0"
    using n by (simp add: js_rem_nonneg)
  have "js_rem (int (length videos) - 1) (int (length videos))
          = Some ((int (length videos) - 1) mod int (length videos))"
    using n by (intro js_rem_nonneg) simp_all
  moreover have "(int (length videos) - 1) mod int (length videos) = int (length videos) - 1"
    using n by (intro mod_pos_pos_trivial) simp_all
  ultimately have 3:
    "js_rem (int (length videos) - 1) (int (length videos)) = Some (int (length videos) - 1)"
    by (simp only:)
  show ?thesis
    using assms(1) 1 2 3
    by (simp add: nextVideo_def previousVideo_def nextVideo_guarded_def previousVideo_guarded_def)
qed

text \<open>Three videos: forward from the last one, backward from the first one.\<close>

theorem videoCarousel_wraps_around_witness:
  "[''a'', ''b'', ''c''] \<noteq> [] \<and> (0::int) \<le> 2
   \<and> nextVideo [''a'', ''b'', ''c'']
        \<lparr>currentVideoIndex = Some 2, vdirection = - 1, cropVideo = False\<rparr>
       = \<lparr>currentVideoIndex = Some 0, vdirection = 1, cropVideo = False\<rparr>
   \<and> previousVideo [''a'', ''b'', ''c'']
        \<lparr>currentVideoIndex = Some 0, vdirection = - 1, cropVideo = False\<rparr>
       = \<lparr>currentVideoIndex = Some 2, vdirection = - 1, cropVideo = False\<rparr>
   \<and> nextVideo_guarded ([] :: string list)
        \<lparr>currentVideoIndex = Some 0, vdirection = 1, cropVideo = False\<rparr>
       = \<lparr>currentVideoIndex = Some 0, vdirection = 1, cropVideo = False\<rparr>"
  using videoCarousel_wraps_around [of "[''a'', ''b'', ''c'']" 2 "- 1" False
      "\<lparr>currentVideoIndex = Some 0, vdirection = 1, cropVideo = False\<rparr>"]
  by simp

end
